theory Spec2Isabelle
  imports Main
begin

section \<open>Snapshot model (database/models.go)\<close>

text \<open>
  The three structs of \<^verbatim>\<open>database/models.go\<close>. Go lets \<^verbatim>\<open>Column\<close> and \<^verbatim>\<open>Task\<close>
  share the field names \<^verbatim>\<open>ID\<close>, \<^verbatim>\<open>Title\<close>, \<^verbatim>\<open>Deleted\<close> and \<^verbatim>\<open>Hidden\<close>; a record field
  is a constant here, so those four carry the struct's name as a prefix. A \<^verbatim>\<open>*string\<close> is
  a \<open>string option\<close> (\<open>None\<close> is the nil pointer, JSON \<^verbatim>\<open>null\<close>): the merge only ever
  reads through such a pointer or replaces it by nil, so sharing of the pointee between
  copies of a task cannot be observed. \<^verbatim>\<open>Order\<close> is a Go \<^verbatim>\<open>int\<close> on which no arithmetic is
  done. A slice is a list; a nil slice and an empty one are both \<open>[]\<close>.
\<close>

record Column =
  Column_ID :: string
  Column_Title :: string
  Order :: int
  Column_Deleted :: bool
  Column_Hidden :: bool

record Task =
  Task_ID :: string
  Task_Title :: string
  Description :: string
  DueDate :: string
  Priority :: "string option"
  ColumnID :: "string option"
  Task_Deleted :: bool
  Task_Hidden :: bool

record KanbanData =
  Columns :: "Column list"
  Tasks :: "Task list"
  UnassignedTasks :: "Task list"
  UnassignedCollapsed :: bool

section \<open>Go maps\<close>

text \<open>
  A Go \<^verbatim>\<open>map[string]V\<close> is a partial function. Reading a missing key of a
  \<^verbatim>\<open>map[string]bool\<close> gives \<^verbatim>\<open>false\<close>. The order in which \<^verbatim>\<open>range\<close> visits the keys of
  a map is not specified by the language, so it is an argument: \<open>range_map ks m\<close> are
  the entries of \<open>m\<close> visited in the order \<open>ks\<close>, and \<open>map_order ks m\<close> says that \<open>ks\<close>
  is such an order (every key of \<open>m\<close>, once).
\<close>

definition lookup_bool :: "(string \<rightharpoonup> bool) \<Rightarrow> string \<Rightarrow> bool" where
  "lookup_bool m k = (case m k of None \<Rightarrow> False | Some b \<Rightarrow> b)"

definition range_map :: "'k list \<Rightarrow> ('k \<rightharpoonup> 'v) \<Rightarrow> ('k \<times> 'v) list" where
  "range_map ks m = List.map_filter (\<lambda>k. map_option (Pair k) (m k)) ks"

definition map_order :: "'k list \<Rightarrow> ('k \<rightharpoonup> 'v) \<Rightarrow> bool" where
  "map_order ks m \<longleftrightarrow> distinct ks \<and> set ks = dom m"

section \<open>The merge engine (handlers/data.go, package handlers)\<close>

text \<open>The two loops that fill the lookup maps.\<close>

definition populate_columns :: "Column list \<Rightarrow> (string \<rightharpoonup> Column) \<Rightarrow> (string \<rightharpoonup> Column)" where
  "populate_columns cols m = fold (\<lambda>col m. m(Column_ID col \<mapsto> col)) cols m"

definition record_task_ids :: "Task list \<Rightarrow> (string \<rightharpoonup> bool) \<Rightarrow> (string \<rightharpoonup> bool)" where
  "record_task_ids tasks m = fold (\<lambda>task m. m(Task_ID task \<mapsto> True)) tasks m"

text \<open>
  The body of the loops over the main task lists: an empty-string \<^verbatim>\<open>columnId\<close> of the
  loop's copy of the task is set to nil.
\<close>

definition empty_to_nil :: "Task \<Rightarrow> Task" where
  "empty_to_nil task =
     (case ColumnID task of
        None \<Rightarrow> task
      | Some columnIDVal \<Rightarrow> if columnIDVal = '''' then task\<lparr>ColumnID := None\<rparr> else task)"

text \<open>
  The final verification pass writes through the index into the slice it ranges over.
  \<^verbatim>\<open>range\<close> fixes the length on entry and reads element \<open>i\<close> at iteration \<open>i\<close>.
\<close>

definition final_pass_step :: "nat \<Rightarrow> Task list \<Rightarrow> Task list" where
  "final_pass_step i tasks =
     (let task = tasks ! i in
      case ColumnID task of
        None \<Rightarrow> tasks
      | Some columnIDVal \<Rightarrow>
          if columnIDVal = '''' \<or> columnIDVal = ''unassigned''
          then tasks[i := (tasks ! i)\<lparr>ColumnID := None\<rparr>]
          else tasks)"

definition final_pass :: "Task list \<Rightarrow> Task list" where
  "final_pass tasks = fold final_pass_step [0..<length tasks] tasks"

definition mergeKanbanData :: "string list \<Rightarrow> KanbanData \<Rightarrow> KanbanData \<Rightarrow> KanbanData" where
  "mergeKanbanData ks serverData clientData =
    (let result = \<lparr>Columns = [], Tasks = [], UnassignedTasks = [],
                    UnassignedCollapsed = UnassignedCollapsed clientData\<rparr>;
         serverColumns = populate_columns (Columns serverData) Map.empty;
         clientColumns = populate_columns (Columns clientData) Map.empty;
         allServerTaskIDs = record_task_ids (Tasks serverData) Map.empty;
         allServerTaskIDs =
           (if length (UnassignedTasks serverData) > 0
            then record_task_ids (UnassignedTasks serverData) allServerTaskIDs
            else allServerTaskIDs);
         allClientTaskIDs = record_task_ids (Tasks clientData) Map.empty;
         allClientTaskIDs =
           (if length (UnassignedTasks clientData) > 0
            then record_task_ids (UnassignedTasks clientData) allClientTaskIDs
            else allClientTaskIDs);
         result = result\<lparr>Columns := Columns result @ Columns clientData\<rparr>;
         result = fold (\<lambda>(id, col) result.
                     if clientColumns id = None
                     then result\<lparr>Columns := Columns result @ [col]\<rparr>
                     else result)
                   (range_map ks serverColumns) result;
         result = fold (\<lambda>task result.
                     result\<lparr>Tasks := Tasks result @ [empty_to_nil task]\<rparr>)
                   (Tasks clientData) result;
         result = fold (\<lambda>task result.
                     result\<lparr>Tasks := Tasks result @ [task\<lparr>ColumnID := None\<rparr>]\<rparr>)
                   (UnassignedTasks clientData) result;
         result = fold (\<lambda>task result.
                     if \<not> lookup_bool allClientTaskIDs (Task_ID task)
                     then result\<lparr>Tasks := Tasks result @ [empty_to_nil task]\<rparr>
                     else result)
                   (Tasks serverData) result;
         result = fold (\<lambda>task result.
                     if \<not> lookup_bool allClientTaskIDs (Task_ID task)
                     then result\<lparr>Tasks := Tasks result @ [task\<lparr>ColumnID := None\<rparr>]\<rparr>
                     else result)
                   (UnassignedTasks serverData) result
     in result\<lparr>Tasks := final_pass (Tasks result)\<rparr>)"

section \<open>The merge engine (handlers.go, package main)\<close>

text \<open>
  The older copy differs in three loops: the two that record the ids of the legacy
  lists first set \<^verbatim>\<open>task.ColumnID = nil\<close> on the loop variable, and the client's columns
  are appended one at a time.
\<close>

definition main_record_unassigned_ids :: "Task list \<Rightarrow> (string \<rightharpoonup> bool) \<Rightarrow> (string \<rightharpoonup> bool)" where
  "main_record_unassigned_ids tasks m =
     fold (\<lambda>task m. let task = task\<lparr>ColumnID := None\<rparr> in m(Task_ID task \<mapsto> True)) tasks m"

definition main_mergeKanbanData :: "string list \<Rightarrow> KanbanData \<Rightarrow> KanbanData \<Rightarrow> KanbanData" where
  "main_mergeKanbanData ks serverData clientData =
    (let result = \<lparr>Columns = [], Tasks = [], UnassignedTasks = [],
                    UnassignedCollapsed = UnassignedCollapsed clientData\<rparr>;
         serverColumns = populate_columns (Columns serverData) Map.empty;
         clientColumns = populate_columns (Columns clientData) Map.empty;
         allServerTaskIDs = record_task_ids (Tasks serverData) Map.empty;
         allServerTaskIDs =
           (if length (UnassignedTasks serverData) > 0
            then main_record_unassigned_ids (UnassignedTasks serverData) allServerTaskIDs
            else allServerTaskIDs);
         allClientTaskIDs = record_task_ids (Tasks clientData) Map.empty;
         allClientTaskIDs =
           (if length (UnassignedTasks clientData) > 0
            then main_record_unassigned_ids (UnassignedTasks clientData) allClientTaskIDs
            else allClientTaskIDs);
         result = fold (\<lambda>col result. result\<lparr>Columns := Columns result @ [col]\<rparr>)
                   (Columns clientData) result;
         result = fold (\<lambda>(id, col) result.
                     if clientColumns id = None
                     then result\<lparr>Columns := Columns result @ [col]\<rparr>
                     else result)
                   (range_map ks serverColumns) result;
         result = fold (\<lambda>task result.
                     result\<lparr>Tasks := Tasks result @ [empty_to_nil task]\<rparr>)
                   (Tasks clientData) result;
         result = fold (\<lambda>task result.
                     result\<lparr>Tasks := Tasks result @ [task\<lparr>ColumnID := None\<rparr>]\<rparr>)
                   (UnassignedTasks clientData) result;
         result = fold (\<lambda>task result.
                     if \<not> lookup_bool allClientTaskIDs (Task_ID task)
                     then result\<lparr>Tasks := Tasks result @ [empty_to_nil task]\<rparr>
                     else result)
                   (Tasks serverData) result;
         result = fold (\<lambda>task result.
                     if \<not> lookup_bool allClientTaskIDs (Task_ID task)
                     then result\<lparr>Tasks := Tasks result @ [task\<lparr>ColumnID := None\<rparr>]\<rparr>
                     else result)
                   (UnassignedTasks serverData) result
     in result\<lparr>Tasks := final_pass (Tasks result)\<rparr>)"

section \<open>The specification's vocabulary\<close>

text \<open>
  The normalization of the specification (section 4.1, step 5, and section 8): a
  \<^verbatim>\<open>columnId\<close> that is the empty string or the literal \<^verbatim>\<open>"unassigned"\<close> is rewritten
  to absent; every other field is kept.
\<close>

definition normalize_task :: "Task \<Rightarrow> Task" where
  "normalize_task t =
     (if ColumnID t = Some '''' \<or> ColumnID t = Some ''unassigned''
      then t\<lparr>ColumnID := None\<rparr> else t)"

text \<open>Steps 2 and 4 of the specification: a task of a legacy list gets no \<^verbatim>\<open>columnId\<close>.\<close>

definition clear_column :: "Task \<Rightarrow> Task" where
  "clear_column t = t\<lparr>ColumnID := None\<rparr>"

text \<open>A snapshot modulo the normalization: both of its task lists normalized.\<close>

definition normalize_snapshot :: "KanbanData \<Rightarrow> KanbanData" where
  "normalize_snapshot d =
     d\<lparr>Tasks := map normalize_task (Tasks d),
       UnassignedTasks := map normalize_task (UnassignedTasks d)\<rparr>"

text \<open>
  A snapshot whose legacy list has been moved to the end of its task list, each task
  without \<^verbatim>\<open>columnId\<close>.
\<close>

definition migrate_legacy :: "KanbanData \<Rightarrow> KanbanData" where
  "migrate_legacy d =
     d\<lparr>Tasks := Tasks d @ map clear_column (UnassignedTasks d), UnassignedTasks := []\<rparr>"

text \<open>The ids of the tasks of a snapshot, main list and legacy list.\<close>

definition client_task_ids :: "KanbanData \<Rightarrow> string set" where
  "client_task_ids d = Task_ID ` (set (Tasks d) \<union> set (UnassignedTasks d))"

text \<open>The two implementations of the merge engine.\<close>

definition merge_engines :: "(string list \<Rightarrow> KanbanData \<Rightarrow> KanbanData \<Rightarrow> KanbanData) set" where
  "merge_engines = {mergeKanbanData, main_mergeKanbanData}"

subsection \<open>Closed forms of the loops\<close>

definition server_rest :: "string list \<Rightarrow> KanbanData \<Rightarrow> KanbanData \<Rightarrow> Column list" where
  "server_rest ks s c =
     map snd (filter (\<lambda>kv. fst kv \<notin> Column_ID ` set (Columns c))
       (range_map ks (populate_columns (Columns s) Map.empty)))"

definition merged_tasks :: "KanbanData \<Rightarrow> KanbanData \<Rightarrow> Task list" where
  "merged_tasks s c =
     map normalize_task (Tasks c) @ map clear_column (UnassignedTasks c)
     @ map normalize_task (filter (\<lambda>t. Task_ID t \<notin> client_task_ids c) (Tasks s))
     @ map clear_column (filter (\<lambda>t. Task_ID t \<notin> client_task_ids c) (UnassignedTasks s))"

subsection \<open>Example data\<close>

definition ex_task :: "string \<Rightarrow> string \<Rightarrow> string option \<Rightarrow> bool \<Rightarrow> Task" where
  "ex_task i title col del =
     \<lparr>Task_ID = i, Task_Title = title, Description = '''', DueDate = '''', Priority = None,
      ColumnID = col, Task_Deleted = del, Task_Hidden = del\<rparr>"

definition ex_column :: "string \<Rightarrow> string \<Rightarrow> int \<Rightarrow> bool \<Rightarrow> Column" where
  "ex_column i title ord del =
     \<lparr>Column_ID = i, Column_Title = title, Order = ord, Column_Deleted = del,
      Column_Hidden = del\<rparr>"

definition ex_board :: "Column list \<Rightarrow> Task list \<Rightarrow> Task list \<Rightarrow> KanbanData" where
  "ex_board cols tasks legacy =
     \<lparr>Columns = cols, Tasks = tasks, UnassignedTasks = legacy, UnassignedCollapsed = False\<rparr>"

section \<open>The connection hub (package services; the copy in package main is the same)\<close>

text \<open>
  \<^verbatim>\<open>WebSocketMessage\<close>. The \<^verbatim>\<open>Data\<close> field has type \<^verbatim>\<open>any\<close>: it is a type parameter.
\<close>

record 'd WebSocketMessage =
  Type :: string
  Data :: 'd
  User :: string

text \<open>
  The bytes that travel through the hub, told apart by what the decoder of \<^verbatim>\<open>Run\<close>
  makes of them: \<open>Encoded m\<close> are bytes that decode to the message \<open>m\<close>, \<open>Malformed\<close>
  are bytes that do not decode. The hub reads the \<^verbatim>\<open>Type\<close> and \<^verbatim>\<open>User\<close> of what it decodes
  and forwards the bytes as they came.
\<close>

datatype 'd wire = Encoded "'d WebSocketMessage" | Malformed string

fun Decode :: "'d wire \<Rightarrow> 'd WebSocketMessage option" where
  "Decode (Encoded m) = Some m"
| "Decode (Malformed _) = None"

text \<open>
  A buffered Go channel as the hub sees it: what is queued, the capacity, and whether
  it has been closed. The hub only ever sends without blocking
  (\<^verbatim>\<open>select { case ch <- x: default: }\<close>) and closes. Sending on a closed channel and
  closing a closed channel panic. A send in a \<^verbatim>\<open>select\<close> with a \<^verbatim>\<open>default\<close> goes through
  when the buffer has room; the queues are made with capacity 256, so no send waits for
  a receiver.
\<close>

datatype panic = SendOnClosedChannel | CloseOfClosedChannel | NilPointerDereference

record 'a chan =
  chan_buf :: "'a list"
  chan_cap :: nat
  chan_closed :: bool

definition try_send :: "'a chan \<Rightarrow> 'a \<Rightarrow> panic + 'a chan option" where
  "try_send ch x =
     (if chan_closed ch then Inl SendOnClosedChannel
      else if length (chan_buf ch) < chan_cap ch
           then Inr (Some (ch\<lparr>chan_buf := chan_buf ch @ [x]\<rparr>))
           else Inr None)"

definition close_chan :: "'a chan \<Rightarrow> panic + 'a chan" where
  "close_chan ch =
     (if chan_closed ch then Inl CloseOfClosedChannel else Inr (ch\<lparr>chan_closed := True\<rparr>))"

text \<open>
  A \<^verbatim>\<open>Client\<close> with the two fields the hub touches. A \<^verbatim>\<open>*Client\<close> is an address; the
  store \<open>store\<close> holds the clients ever made, and \<open>Clients\<close> is the hub's
  \<^verbatim>\<open>map[*Client]bool\<close>, the live set. Every client owns the queue it was made with.
\<close>

record 'd Client =
  Email :: string
  Send :: "'d wire chan"

record 'd Hub =
  store :: "nat \<rightharpoonup> 'd Client"
  Clients :: "nat \<rightharpoonup> bool"

definition NewHub :: "'d Hub" where
  "NewHub = \<lparr>store = Map.empty, Clients = Map.empty\<rparr>"

text \<open>What \<^verbatim>\<open>Run\<close> receives from its three channels.\<close>

datatype 'd event = RegisterEv nat | UnregisterEv nat | BroadcastEv "'d wire"

definition Register :: "nat \<Rightarrow> 'd event" where
  "Register client = RegisterEv client"

definition Unregister :: "nat \<Rightarrow> 'd event" where
  "Unregister client = UnregisterEv client"


text \<open>The body of the loop over the live set, for one client.\<close>

definition deliver :: "'d wire \<Rightarrow> string \<Rightarrow> nat \<Rightarrow> 'd Hub \<Rightarrow> panic + 'd Hub" where
  "deliver message excludeEmail client h =
     (case store h client of
        None \<Rightarrow> Inl NilPointerDereference
      | Some c \<Rightarrow>
          if excludeEmail \<noteq> '''' \<and> Email c = excludeEmail then Inr h
          else (case try_send (Send c) message of
                  Inl p \<Rightarrow> Inl p
                | Inr (Some ch) \<Rightarrow> Inr (h\<lparr>store := (store h)(client \<mapsto> c\<lparr>Send := ch\<rparr>)\<rparr>)
                | Inr None \<Rightarrow>
                    (case close_chan (Send c) of
                       Inl p \<Rightarrow> Inl p
                     | Inr ch \<Rightarrow>
                         Inr (h\<lparr>store := (store h)(client \<mapsto> c\<lparr>Send := ch\<rparr>),
                                Clients := (Clients h)(client := None)\<rparr>))))"

text \<open>
  \<^verbatim>\<open>for client := range h.Clients\<close>, the keys visited in the order \<open>ks\<close>. An entry removed
  before it is reached is not produced; a panic ends the loop.
\<close>

fun broadcast_loop :: "'d wire \<Rightarrow> string \<Rightarrow> nat list \<Rightarrow> 'd Hub \<Rightarrow> panic + 'd Hub" where
  "broadcast_loop message excludeEmail [] h = Inr h"
| "broadcast_loop message excludeEmail (client # rest) h =
     (if Clients h client = None then broadcast_loop message excludeEmail rest h
      else (case deliver message excludeEmail client h of
              Inl p \<Rightarrow> Inl p
            | Inr h' \<Rightarrow> broadcast_loop message excludeEmail rest h'))"

text \<open>
  One iteration of the loop of \<^verbatim>\<open>Hub.Run\<close>: the \<^verbatim>\<open>select\<close> has received \<open>ev\<close>, and \<open>ks\<close>
  is the order in which a broadcast's loop visits the live set. The loop of \<^verbatim>\<open>Run\<close>
  itself never ends, by design; a run of the hub is a sequence of such iterations, each
  of which returns.
\<close>

definition Run_step :: "nat list \<Rightarrow> 'd event \<Rightarrow> 'd Hub \<Rightarrow> panic + 'd Hub" where
  "Run_step ks ev h =
     (case ev of
        RegisterEv client \<Rightarrow>
          (case store h client of
             None \<Rightarrow> Inl NilPointerDereference
           | Some c \<Rightarrow> Inr (h\<lparr>Clients := (Clients h)(client \<mapsto> True)\<rparr>))
      | UnregisterEv client \<Rightarrow>
          if Clients h client \<noteq> None
          then (case store h client of
                  None \<Rightarrow> Inl NilPointerDereference
                | Some c \<Rightarrow>
                    (case close_chan (Send c) of
                       Inl p \<Rightarrow> Inl p
                     | Inr ch \<Rightarrow>
                         Inr (h\<lparr>Clients := (Clients h)(client := None),
                                store := (store h)(client \<mapsto> c\<lparr>Send := ch\<rparr>)\<rparr>)))
          else Inr h
      | BroadcastEv message \<Rightarrow>
          (case Decode message of
             None \<Rightarrow> Inr h
           | Some wsMessage \<Rightarrow> broadcast_loop message (User wsMessage) ks h))"

subsection \<open>The hub's vocabulary\<close>

text \<open>A session is live when it is in the live set.\<close>

definition live :: "'d Hub \<Rightarrow> nat \<Rightarrow> bool" where
  "live h a \<longleftrightarrow> Clients h a \<noteq> None"

text \<open>
  The state the hub keeps between iterations: every live session is a client of the
  store whose queue has not been closed.
\<close>

definition hub_inv :: "'d Hub \<Rightarrow> bool" where
  "hub_inv h \<longleftrightarrow>
     (\<forall>a. live h a \<longrightarrow> (\<exists>c. store h a = Some c \<and> \<not> chan_closed (Send c)))"

definition queue_full :: "'d Client \<Rightarrow> bool" where
  "queue_full c \<longleftrightarrow> \<not> length (chan_buf (Send c)) < chan_cap (Send c)"

definition excluded :: "string \<Rightarrow> 'd Client \<Rightarrow> bool" where
  "excluded e c \<longleftrightarrow> e \<noteq> '''' \<and> Email c = e"

definition enqueued :: "'d wire \<Rightarrow> 'd Client \<Rightarrow> 'd Client" where
  "enqueued w c = c\<lparr>Send := (Send c)\<lparr>chan_buf := chan_buf (Send c) @ [w]\<rparr>\<rparr>"

definition queue_closed :: "'d Client \<Rightarrow> 'd Client" where
  "queue_closed c = c\<lparr>Send := (Send c)\<lparr>chan_closed := True\<rparr>\<rparr>"

text \<open>What one broadcast does to one client that the loop visits.\<close>

definition delivered :: "'d wire \<Rightarrow> string \<Rightarrow> 'd Client \<Rightarrow> 'd Client" where
  "delivered w e c =
     (if excluded e c then c else if queue_full c then queue_closed c else enqueued w c)"

definition dropped :: "string \<Rightarrow> 'd Client \<Rightarrow> bool" where
  "dropped e c \<longleftrightarrow> \<not> excluded e c \<and> queue_full c"

text \<open>The hub after the loop has visited the live sessions among \<open>S\<close>.\<close>

definition after_broadcast :: "'d wire \<Rightarrow> string \<Rightarrow> nat set \<Rightarrow> 'd Hub \<Rightarrow> 'd Hub" where
  "after_broadcast w e S h =
     h\<lparr>store := (\<lambda>a. if a \<in> S \<and> live h a then map_option (delivered w e) (store h a)
                     else store h a),
       Clients := (\<lambda>a. if a \<in> S \<and> live h a \<and> (\<exists>c. store h a = Some c \<and> dropped e c)
                       then None else Clients h a)\<rparr>"

subsection \<open>Example hub\<close>

definition ex_client :: "string \<Rightarrow> 'd wire list \<Rightarrow> nat \<Rightarrow> 'd Client" where
  "ex_client email queued capacity =
     \<lparr>Email = email, Send = \<lparr>chan_buf = queued, chan_cap = capacity, chan_closed = False\<rparr>\<rparr>"

definition ex_hub :: "'d Client \<Rightarrow> 'd Client \<Rightarrow> 'd Client \<Rightarrow> 'd Hub" where
  "ex_hub A B C =
     \<lparr>store = [0 \<mapsto> A, 1 \<mapsto> B, 2 \<mapsto> C], Clients = [0 \<mapsto> True, 1 \<mapsto> True, 2 \<mapsto> True]\<rparr>"

definition ex_msg :: "string WebSocketMessage" where
  "ex_msg = \<lparr>Type = ''taskMove'', Data = ''t1'', User = ''''\<rparr>"






section \<open>The sync endpoint (SyncData)\<close>

text \<open>
  What the handler writes to the \<^verbatim>\<open>http.ResponseWriter\<close>: \<^verbatim>\<open>http.Error\<close> with a status
  code and a message, or the JSON object with status \<^verbatim>\<open>"success"\<close> and the merged
  snapshot.
\<close>

datatype response = HttpError nat string | Success KanbanData

text \<open>
  The storage service is a collaborator behind SQL: its two operations are parameters,
  over a database state \<open>'db\<close>. \<^verbatim>\<open>GetUserData\<close> returns an error or the stored snapshot;
  \<^verbatim>\<open>SaveUserData\<close> returns an error, its transaction rolled back, or the database after
  the commit.
\<close>

record 'db DataService =
  GetUserData :: "'db \<Rightarrow> string \<Rightarrow> string + KanbanData"
  SaveUserData :: "'db \<Rightarrow> string \<Rightarrow> KanbanData \<Rightarrow> string + 'db"

text \<open>
  What the handlers read of the request: the email that the middleware put into the
  context (package \<^verbatim>\<open>handlers\<close>), the result of \<^verbatim>\<open>h.authenticate(r)\<close> (package \<^verbatim>\<open>main\<close>: an
  error or the email), and the decoded body (\<open>None\<close> when decoding fails).
\<close>

record request =
  ctx_email :: "string option"
  authenticate :: "string + string"
  body :: "KanbanData option"

definition StatusBadRequest :: nat where "StatusBadRequest = 400"
definition StatusUnauthorized :: nat where "StatusUnauthorized = 401"
definition StatusInternalServerError :: nat where "StatusInternalServerError = 500"

text \<open>
  \<^verbatim>\<open>SyncData\<close> of \<^verbatim>\<open>handlers/data.go\<close>. It returns the response, the database, and what it
  has handed to the hub: the arguments of its calls of \<^verbatim>\<open>h.hub.Broadcast\<close>.
\<close>

definition SyncData ::
  "'db DataService \<Rightarrow> string list \<Rightarrow> request \<Rightarrow> 'db \<Rightarrow> response \<times> 'db \<times> (KanbanData WebSocketMessage \<times> string) list" where
  "SyncData svc ks r db =
     (case ctx_email r of
        None \<Rightarrow> (HttpError StatusUnauthorized ''user not found'', db, [])
      | Some email \<Rightarrow>
     (case body r of
        None \<Rightarrow> (HttpError StatusBadRequest ''Invalid request format'', db, [])
      | Some clientData \<Rightarrow>
     (case GetUserData svc db email of
        Inl err \<Rightarrow> (HttpError StatusInternalServerError ''Server error'', db, [])
      | Inr serverData \<Rightarrow>
     (let mergedData = mergeKanbanData ks serverData clientData in
      case SaveUserData svc db email mergedData of
        Inl err \<Rightarrow> (HttpError StatusInternalServerError ''Failed to save data'', db, [])
      | Inr db' \<Rightarrow>
          (let message = \<lparr>Type = ''sync'', Data = mergedData, User = ''''\<rparr>
           in (Success mergedData, db', [(message, '''')]))))))"

text \<open>\<^verbatim>\<open>SyncData\<close> of \<^verbatim>\<open>handlers.go\<close>, package \<^verbatim>\<open>main\<close>.\<close>

definition main_SyncData ::
  "'db DataService \<Rightarrow> string list \<Rightarrow> request \<Rightarrow> 'db \<Rightarrow> response \<times> 'db \<times> (KanbanData WebSocketMessage \<times> string) list" where
  "main_SyncData svc ks r db =
     (case authenticate r of
        Inl err \<Rightarrow> (HttpError StatusUnauthorized err, db, [])
      | Inr email \<Rightarrow>
     (case body r of
        None \<Rightarrow> (HttpError StatusBadRequest ''Invalid request format'', db, [])
      | Some clientData \<Rightarrow>
     (case GetUserData svc db email of
        Inl err \<Rightarrow> (HttpError StatusInternalServerError ''Server error'', db, [])
      | Inr serverData \<Rightarrow>
     (let mergedData = main_mergeKanbanData ks serverData clientData in
      case SaveUserData svc db email mergedData of
        Inl err \<Rightarrow> (HttpError StatusInternalServerError ''Failed to save data'', db, [])
      | Inr db' \<Rightarrow>
          (let message = \<lparr>Type = ''sync'', Data = mergedData, User = ''''\<rparr>
           in (Success mergedData, db', [(message, '''')]))))))"

subsection \<open>Example service\<close>

text \<open>
  A storage service over a map from emails to snapshots, whose save fails when
  \<open>broken\<close>; a user without data has the empty board of \<^verbatim>\<open>GetUserData\<close>.
\<close>

definition ex_service :: "bool \<Rightarrow> (string \<rightharpoonup> KanbanData) DataService" where
  "ex_service broken =
     \<lparr>GetUserData = (\<lambda>db email.
        Inr (case db email of
               None \<Rightarrow> \<lparr>Columns = [], Tasks = [], UnassignedTasks = [],
                        UnassignedCollapsed = True\<rparr>
             | Some d \<Rightarrow> d)),
      SaveUserData = (\<lambda>db email d.
        if broken then Inl ''failed to commit transaction'' else Inr (db(email \<mapsto> d)))\<rparr>"

definition ex_request :: "string \<Rightarrow> KanbanData \<Rightarrow> request" where
  "ex_request email d = \<lparr>ctx_email = Some email, authenticate = Inr email, body = Some d\<rparr>"

section \<open>The loops of the merge engine in closed form\<close>

lemma fold_append_task:
  "fold (\<lambda>task r. r\<lparr>Tasks := Tasks r @ [f task]\<rparr>) xs r = r\<lparr>Tasks := Tasks r @ map f xs\<rparr>"
  by (induction xs arbitrary: r) simp_all

lemma fold_append_task_if:
  "fold (\<lambda>task r. if P task then r\<lparr>Tasks := Tasks r @ [f task]\<rparr> else r) xs r
     = r\<lparr>Tasks := Tasks r @ map f (filter P xs)\<rparr>"
  by (induction xs arbitrary: r) simp_all

lemma fold_append_column:
  "fold (\<lambda>col r. r\<lparr>Columns := Columns r @ [col]\<rparr>) xs r = r\<lparr>Columns := Columns r @ xs\<rparr>"
  by (induction xs arbitrary: r) simp_all

lemma fold_append_column_if:
  "fold (\<lambda>(id, col) r. if P id then r\<lparr>Columns := Columns r @ [col]\<rparr> else r) kvs r
     = r\<lparr>Columns := Columns r @ map snd (filter (\<lambda>kv. P (fst kv)) kvs)\<rparr>"
  by (induction kvs arbitrary: r) (simp_all add: case_prod_beta)

text \<open>The final pass, which updates the slice in place, normalizes every element.\<close>

lemma final_pass_step_eq:
  "i < length ts \<Longrightarrow> final_pass_step i ts = ts[i := normalize_task (ts ! i)]"
  by (auto simp: final_pass_step_def normalize_task_def Let_def split: option.splits)

lemma final_pass_prefix:
  "k \<le> length ts \<Longrightarrow>
     fold final_pass_step [0..<k] ts = map normalize_task (take k ts) @ drop k ts"
proof (induction k)
  case 0
  then show ?case by simp
next
  case (Suc k)
  then have k: "k < length ts" by simp
  let ?mid = "map normalize_task (take k ts) @ drop k ts"
  have len: "length ?mid = length ts" using k by simp
  have at: "?mid ! k = ts ! k" using k by (simp add: nth_append)
  have "fold final_pass_step [0..<Suc k] ts = final_pass_step k ?mid"
    using Suc by simp
  also have "\<dots> = ?mid[k := normalize_task (ts ! k)]"
    using final_pass_step_eq [of k ?mid] k len at by simp
  also have "\<dots> = map normalize_task (take (Suc k) ts) @ drop (Suc k) ts"
    using k by (simp add: list_update_append take_Suc_conv_app_nth upd_conv_take_nth_drop
        Cons_nth_drop_Suc [symmetric])
  finally show ?case .
qed

lemma final_pass_map: "final_pass ts = map normalize_task ts"
  using final_pass_prefix [of "length ts" ts] by (simp add: final_pass_def)

text \<open>The id maps.\<close>

lemma record_task_ids_lookup:
  "lookup_bool (record_task_ids ts m) k \<longleftrightarrow> k \<in> Task_ID ` set ts \<or> lookup_bool m k"
  unfolding record_task_ids_def
  by (induction ts arbitrary: m) (auto simp: lookup_bool_def)

lemma main_record_unassigned_ids_eq:
  "main_record_unassigned_ids ts m = record_task_ids ts m"
  by (simp add: main_record_unassigned_ids_def record_task_ids_def)

lemma client_ids_lookup:
  "lookup_bool (if 0 < length us then record_task_ids us (record_task_ids ts Map.empty)
                else record_task_ids ts Map.empty) k
     \<longleftrightarrow> k \<in> Task_ID ` (set ts \<union> set us)"
proof -
  have e: "\<not> lookup_bool Map.empty k" by (simp add: lookup_bool_def)
  show ?thesis by (cases us) (auto simp: record_task_ids_lookup e)
qed

lemma main_client_ids_lookup:
  "lookup_bool (if 0 < length us
                then main_record_unassigned_ids us (record_task_ids ts Map.empty)
                else record_task_ids ts Map.empty) k
     \<longleftrightarrow> k \<in> Task_ID ` (set ts \<union> set us)"
  unfolding main_record_unassigned_ids_eq by (rule client_ids_lookup)

text \<open>The column maps: the last column of the list with a given id is the one kept.\<close>

lemma populate_columns_dom:
  "dom (populate_columns cols m) = Column_ID ` set cols \<union> dom m"
  unfolding populate_columns_def
  by (induction cols arbitrary: m) auto

lemma populate_columns_None:
  "populate_columns cols Map.empty k = None \<longleftrightarrow> k \<notin> Column_ID ` set cols"
proof -
  have "populate_columns cols Map.empty k = None
          \<longleftrightarrow> k \<notin> dom (populate_columns cols Map.empty)"
    by (simp add: domIff)
  then show ?thesis by (simp add: populate_columns_dom)
qed

lemma populate_columns_snoc:
  "populate_columns (cols @ [col]) m = (populate_columns cols m)(Column_ID col \<mapsto> col)"
  by (simp add: populate_columns_def)

lemma populate_columns_Some:
  "populate_columns cols Map.empty k = Some col \<longleftrightarrow>
     List.find (\<lambda>c. Column_ID c = k) (rev cols) = Some col"
proof (induction cols rule: rev_induct)
  case Nil
  then show ?case by (simp add: populate_columns_def)
next
  case (snoc x xs)
  then show ?case by (auto simp: populate_columns_snoc)
qed

lemma populate_columns_key:
  "populate_columns cols Map.empty k = Some col \<Longrightarrow> Column_ID col = k \<and> col \<in> set cols"
proof -
  assume "populate_columns cols Map.empty k = Some col"
  then have f: "List.find (\<lambda>c. Column_ID c = k) (rev cols) = Some col"
    by (simp add: populate_columns_Some)
  then obtain i where "i < length (rev cols)" "Column_ID (rev cols ! i) = k" "col = rev cols ! i"
    unfolding find_Some_iff by blast
  then show ?thesis using nth_mem [of i "rev cols"] by simp
qed

lemma range_map_set:
  "set (range_map ks m) = {(k, v). k \<in> set ks \<and> m k = Some v}"
  unfolding range_map_def
  by (induction ks) (auto split: option.splits)

lemma range_map_keys_distinct:
  "distinct ks \<Longrightarrow> distinct (map fst (range_map ks m))"
proof (induction ks)
  case Nil
  then show ?case by (simp add: range_map_def)
next
  case (Cons k ks)
  have "k \<notin> fst ` set (range_map ks m)"
    using Cons.prems range_map_set [of ks m] by auto
  then show ?case using Cons by (auto simp: range_map_def split: option.splits)
qed

lemma server_rest_entry:
  assumes "(k, col) \<in> set (range_map ks (populate_columns cols Map.empty))"
  shows "k \<in> set ks \<and> Column_ID col = k \<and> col \<in> set cols
         \<and> populate_columns cols Map.empty k = Some col"
  using assms populate_columns_key [of cols k col] by (simp add: range_map_set)

text \<open>The normalization and the two loop bodies.\<close>

lemma normalize_empty_to_nil: "normalize_task (empty_to_nil t) = normalize_task t"
  by (auto simp: normalize_task_def empty_to_nil_def split: option.splits)

lemma normalize_clear: "normalize_task (t\<lparr>ColumnID := None\<rparr>) = t\<lparr>ColumnID := None\<rparr>"
  by (simp add: normalize_task_def)

lemma normalize_idem: "normalize_task (normalize_task t) = normalize_task t"
  by (simp add: normalize_task_def)

lemma Task_ID_normalize [simp]: "Task_ID (normalize_task t) = Task_ID t"
  by (simp add: normalize_task_def)

lemma Task_ID_clear [simp]: "Task_ID (clear_column t) = Task_ID t"
  by (simp add: clear_column_def)

lemma Task_Deleted_normalize [simp]: "Task_Deleted (normalize_task t) = Task_Deleted t"
  by (simp add: normalize_task_def)

lemma Task_Deleted_clear [simp]: "Task_Deleted (clear_column t) = Task_Deleted t"
  by (simp add: clear_column_def)

lemma normalize_clear_column [simp]: "normalize_task (clear_column t) = clear_column t"
  by (simp add: clear_column_def normalize_task_def)

lemma ColumnID_clear [simp]: "ColumnID (clear_column t) = None"
  by (simp add: clear_column_def)

lemma ColumnID_normalize:
  "ColumnID (normalize_task t) \<noteq> Some '''' \<and> ColumnID (normalize_task t) \<noteq> Some ''unassigned''"
  by (simp add: normalize_task_def)

text \<open>Both engines compute the same closed form.\<close>

lemma mergeKanbanData_closed:
  "mergeKanbanData ks s c =
     \<lparr>Columns = Columns c @ server_rest ks s c, Tasks = merged_tasks s c,
      UnassignedTasks = [], UnassignedCollapsed = UnassignedCollapsed c\<rparr>"
  unfolding mergeKanbanData_def Let_def
  by (simp add: fold_append_task fold_append_task_if fold_append_column_if final_pass_map
      client_ids_lookup populate_columns_None server_rest_def merged_tasks_def
      client_task_ids_def normalize_empty_to_nil normalize_clear clear_column_def comp_def
      del: length_greater_0_conv split del: if_split)

lemma main_mergeKanbanData_closed:
  "main_mergeKanbanData ks s c =
     \<lparr>Columns = Columns c @ server_rest ks s c, Tasks = merged_tasks s c,
      UnassignedTasks = [], UnassignedCollapsed = UnassignedCollapsed c\<rparr>"
  unfolding main_mergeKanbanData_def Let_def
  by (simp add: fold_append_task fold_append_task_if fold_append_column_if final_pass_map
      fold_append_column main_client_ids_lookup populate_columns_None server_rest_def
      merged_tasks_def client_task_ids_def normalize_empty_to_nil normalize_clear
      clear_column_def comp_def
      del: length_greater_0_conv split del: if_split)

lemma engines_closed:
  assumes "merge \<in> merge_engines"
  shows "merge ks s c =
     \<lparr>Columns = Columns c @ server_rest ks s c, Tasks = merged_tasks s c,
      UnassignedTasks = [], UnassignedCollapsed = UnassignedCollapsed c\<rparr>"
  using assms mergeKanbanData_closed main_mergeKanbanData_closed
  by (auto simp: merge_engines_def)

lemma server_rest_self: "server_rest ks S S = []"
  unfolding server_rest_def map_is_Nil_conv filter_empty_conv
  using server_rest_entry [of _ _ ks "Columns S"] by force

lemma merged_tasks_self:
  "merged_tasks S S = map normalize_task (Tasks S) @ map clear_column (UnassignedTasks S)"
proof -
  have "filter (\<lambda>t. Task_ID t \<notin> client_task_ids S) (Tasks S) = []"
    "filter (\<lambda>t. Task_ID t \<notin> client_task_ids S) (UnassignedTasks S) = []"
    by (auto simp: filter_empty_conv client_task_ids_def)
  then show ?thesis by (simp add: merged_tasks_def)
qed

text \<open>The server's part of the merged column list.\<close>

lemma find_distinct_key:
  "distinct (map f xs) \<Longrightarrow> x \<in> set xs \<Longrightarrow> List.find (\<lambda>y. f y = f x) xs = Some x"
  by (induction xs) (auto simp: rev_image_eqI)

lemma find_key_member:
  "List.find (\<lambda>y. f y = k) xs = Some x \<Longrightarrow> x \<in> set xs \<and> f x = k"
  by (induction xs) (auto split: if_splits)

lemma keyed_values:
  "\<forall>kv \<in> set kvs. f (snd kv) = fst kv \<Longrightarrow> map f (map snd kvs) = map fst kvs"
  by (induction kvs) auto

lemma server_rest_distinct:
  assumes "distinct ks"
  shows "distinct (map Column_ID (server_rest ks s c))"
proof -
  let ?kvs = "filter (\<lambda>kv. fst kv \<notin> Column_ID ` set (Columns c))
                (range_map ks (populate_columns (Columns s) Map.empty))"
  have "\<forall>kv \<in> set ?kvs. Column_ID (snd kv) = fst kv"
    using server_rest_entry [of _ _ ks "Columns s"] by auto
  then have "map Column_ID (server_rest ks s c) = map fst ?kvs"
    unfolding server_rest_def by (rule keyed_values)
  moreover have "distinct (map fst ?kvs)"
    by (rule distinct_map_filter) (rule range_map_keys_distinct [OF assms])
  ultimately show ?thesis by simp
qed

lemma server_rest_set:
  assumes "set ks = dom (populate_columns (Columns s) Map.empty)"
  shows "set (server_rest ks s c) =
     {col. Column_ID col \<notin> Column_ID ` set (Columns c)
           \<and> List.find (\<lambda>x. Column_ID x = Column_ID col) (rev (Columns s)) = Some col}"
    (is "?L = ?R")
proof (intro set_eqI iffI)
  fix col assume "col \<in> ?L"
  then obtain k where "(k, col) \<in> set (range_map ks (populate_columns (Columns s) Map.empty))"
    and "k \<notin> Column_ID ` set (Columns c)"
    by (auto simp: server_rest_def)
  then show "col \<in> ?R"
    using server_rest_entry [of k col ks "Columns s"] by (simp add: populate_columns_Some)
next
  fix col assume "col \<in> ?R"
  then have k: "Column_ID col \<notin> Column_ID ` set (Columns c)"
    and m: "populate_columns (Columns s) Map.empty (Column_ID col) = Some col"
    by (simp_all add: populate_columns_Some)
  from m assms have "Column_ID col \<in> set ks" by auto
  with m have "(Column_ID col, col) \<in> set (range_map ks (populate_columns (Columns s) Map.empty))"
    by (simp add: range_map_set)
  with k show "col \<in> ?L" by (force simp: server_rest_def)
qed

text \<open>Facts for evaluating the engines and the vocabulary on concrete snapshots.\<close>

lemmas merge_eval =
  mergeKanbanData_def main_mergeKanbanData_def Let_def populate_columns_def
  record_task_ids_def main_record_unassigned_ids_def range_map_def lookup_bool_def
  empty_to_nil_def final_pass_def final_pass_step_def ex_task_def ex_column_def ex_board_def

lemmas spec_eval =
  normalize_task_def clear_column_def client_task_ids_def normalize_snapshot_def
  migrate_legacy_def map_order_def

section \<open>Properties of the merge engine\<close>

subsection \<open>Reconciling a snapshot with itself\<close>

text \<open>
  Claim C1, as the specification words it: \<open>Reconcile(S, S) = S\<close> modulo the normalization,
  for every snapshot, also one with a non-empty legacy list. The engines move the legacy
  list into the task list and return an empty legacy list, so the equation fails for
  every snapshot that carries legacy tasks; here for one legacy task and nothing else.
\<close>

theorem reconcile_self_counterexample:
  "normalize_snapshot
     (mergeKanbanData [] (ex_board [] [] [ex_task ''t1'' ''a'' None False])
        (ex_board [] [] [ex_task ''t1'' ''a'' None False]))
     \<noteq> normalize_snapshot (ex_board [] [] [ex_task ''t1'' ''a'' None False])
   \<and> mergeKanbanData [] (ex_board [] [] [ex_task ''t1'' ''a'' None False])
        (ex_board [] [] [ex_task ''t1'' ''a'' None False])
     = ex_board [] [ex_task ''t1'' ''a'' None False] []
   \<and> main_mergeKanbanData [] (ex_board [] [] [ex_task ''t1'' ''a'' None False])
        (ex_board [] [] [ex_task ''t1'' ''a'' None False])
     = ex_board [] [ex_task ''t1'' ''a'' None False] []"
  by (simp add: merge_eval spec_eval)

text \<open>
  Claim C1, amended. For every snapshot \<open>S\<close>, every enumeration order and either engine:
  merging \<open>S\<close> with itself gives \<open>S\<close> with its legacy tasks moved to the end of the task
  list without \<^verbatim>\<open>columnId\<close>, modulo the normalization; the result equals \<open>S\<close> modulo the
  normalization exactly when the legacy list of \<open>S\<close> is empty; and merging the result with
  itself returns it unchanged.
\<close>

theorem reconcile_self:
  assumes "merge \<in> merge_engines"
  shows "merge ks S S = normalize_snapshot (migrate_legacy S)
       \<and> (normalize_snapshot (merge ks S S) = normalize_snapshot S \<longleftrightarrow> UnassignedTasks S = [])
       \<and> merge ks' (merge ks S S) (merge ks S S) = merge ks S S"
proof -
  let ?R = "merge ks S S"
  have R: "?R = \<lparr>Columns = Columns S,
                 Tasks = map normalize_task (Tasks S) @ map clear_column (UnassignedTasks S),
                 UnassignedTasks = [], UnassignedCollapsed = UnassignedCollapsed S\<rparr>"
    by (simp add: engines_closed [OF assms] server_rest_self merged_tasks_self)
  have 1: "?R = normalize_snapshot (migrate_legacy S)"
    by (simp add: R normalize_snapshot_def migrate_legacy_def)
  have 2: "normalize_snapshot ?R = normalize_snapshot S \<longleftrightarrow> UnassignedTasks S = []"
  proof
    assume "normalize_snapshot ?R = normalize_snapshot S"
    then have "UnassignedTasks (normalize_snapshot ?R) = UnassignedTasks (normalize_snapshot S)"
      by simp
    then show "UnassignedTasks S = []" by (simp add: R normalize_snapshot_def)
  next
    assume "UnassignedTasks S = []"
    then show "normalize_snapshot ?R = normalize_snapshot S"
      by (simp add: R normalize_snapshot_def normalize_idem)
  qed
  have "merge ks' ?R ?R = \<lparr>Columns = Columns ?R,
          Tasks = map normalize_task (Tasks ?R) @ map clear_column (UnassignedTasks ?R),
          UnassignedTasks = [], UnassignedCollapsed = UnassignedCollapsed ?R\<rparr>"
    by (simp only: engines_closed [OF assms] server_rest_self merged_tasks_self append_Nil2)
  also have "\<dots> = ?R"
    by (simp add: R normalize_idem)
  finally show ?thesis using 1 2 by simp
qed

text \<open>
  The amended claim at a snapshot with a column, a task whose \<^verbatim>\<open>columnId\<close> is the empty
  string and a deleted legacy task that names a column.
\<close>

theorem reconcile_self_witness:
  "mergeKanbanData \<in> merge_engines
   \<and> mergeKanbanData [''c1'']
       (ex_board [ex_column ''c1'' ''A'' 0 False]
          [ex_task ''t1'' ''a'' (Some '''') False] [ex_task ''t2'' ''b'' (Some ''c1'') True])
       (ex_board [ex_column ''c1'' ''A'' 0 False]
          [ex_task ''t1'' ''a'' (Some '''') False] [ex_task ''t2'' ''b'' (Some ''c1'') True])
     = normalize_snapshot (migrate_legacy
         (ex_board [ex_column ''c1'' ''A'' 0 False]
            [ex_task ''t1'' ''a'' (Some '''') False] [ex_task ''t2'' ''b'' (Some ''c1'') True]))
   \<and> normalize_snapshot (migrate_legacy
         (ex_board [ex_column ''c1'' ''A'' 0 False]
            [ex_task ''t1'' ''a'' (Some '''') False] [ex_task ''t2'' ''b'' (Some ''c1'') True]))
     = ex_board [ex_column ''c1'' ''A'' 0 False]
         [ex_task ''t1'' ''a'' None False, ex_task ''t2'' ''b'' None True] []"
proof -
  have h: "mergeKanbanData \<in> merge_engines" by (simp add: merge_engines_def)
  have e: "normalize_snapshot (migrate_legacy
         (ex_board [ex_column ''c1'' ''A'' 0 False]
            [ex_task ''t1'' ''a'' (Some '''') False] [ex_task ''t2'' ''b'' (Some ''c1'') True]))
     = ex_board [ex_column ''c1'' ''A'' 0 False]
         [ex_task ''t1'' ''a'' None False, ex_task ''t2'' ''b'' None True] []"
    by (simp add: spec_eval ex_task_def ex_column_def ex_board_def)
  show ?thesis
    using h e reconcile_self [OF h, of "[''c1'']"
        "ex_board [ex_column ''c1'' ''A'' 0 False]
          [ex_task ''t1'' ''a'' (Some '''') False] [ex_task ''t2'' ''b'' (Some ''c1'') True]" "[]"]
    by simp
qed

subsection \<open>Client precedence\<close>

text \<open>
  Claim C2, as stated: for an id present in both inputs the result contains the client's
  entry, every field value taken from the client. A client task whose \<^verbatim>\<open>columnId\<close> is the
  empty string comes out with no \<^verbatim>\<open>columnId\<close> (Scenario B of the specification), so the
  client's entry itself is not in the result; and a task of the client's legacy list
  that names column \<open>c1\<close> comes out with no \<^verbatim>\<open>columnId\<close> either.
\<close>

theorem client_precedence_counterexample:
  "ex_task ''t2'' ''new'' (Some '''') False
     \<in> set (Tasks (ex_board [] [ex_task ''t2'' ''new'' (Some '''') False] []))
   \<and> ''t2'' \<in> Task_ID ` set (Tasks (ex_board [] [ex_task ''t2'' ''old'' (Some ''c1'') False] []))
   \<and> ex_task ''t2'' ''new'' (Some '''') False
     \<notin> set (Tasks (mergeKanbanData []
            (ex_board [] [ex_task ''t2'' ''old'' (Some ''c1'') False] [])
            (ex_board [] [ex_task ''t2'' ''new'' (Some '''') False] [])))
   \<and> Tasks (mergeKanbanData []
            (ex_board [] [ex_task ''t2'' ''old'' (Some ''c1'') False] [])
            (ex_board [] [ex_task ''t2'' ''new'' (Some '''') False] []))
     = [ex_task ''t2'' ''new'' None False]
   \<and> Tasks (main_mergeKanbanData []
            (ex_board [] [ex_task ''t2'' ''old'' (Some ''c1'') False] [])
            (ex_board [] [ex_task ''t2'' ''new'' (Some '''') False] []))
     = [ex_task ''t2'' ''new'' None False]
   \<and> Tasks (mergeKanbanData []
            (ex_board [] [ex_task ''t3'' ''old'' (Some ''c2'') False] [])
            (ex_board [] [] [ex_task ''t3'' ''new'' (Some ''c1'') False]))
     = [ex_task ''t3'' ''new'' None False]"
  by (simp add: merge_eval)

text \<open>
  Claim C2, amended. For every pair of snapshots, every enumeration order and either
  engine: the entries of the merged task list with an id \<open>i\<close> that the client carries
  (in its main or its legacy list) are exactly the client's entries with that id, in
  the client's order, each with every field of the client's entry except that the
  \<^verbatim>\<open>columnId\<close> is normalized (main list) or absent (legacy list); the entries of the
  merged column list with an id \<open>j\<close> that the client carries are exactly the client's
  columns with that id, verbatim. Nothing of the server's entry for such an id is in
  the result, whether or not the server has one.
\<close>

theorem client_precedence:
  assumes "merge \<in> merge_engines"
  shows "(i \<in> client_task_ids c \<longrightarrow>
            filter (\<lambda>t. Task_ID t = i) (Tasks (merge ks s c))
              = map normalize_task (filter (\<lambda>t. Task_ID t = i) (Tasks c))
                @ map clear_column (filter (\<lambda>t. Task_ID t = i) (UnassignedTasks c)))
       \<and> (j \<in> Column_ID ` set (Columns c) \<longrightarrow>
            filter (\<lambda>x. Column_ID x = j) (Columns (merge ks s c))
              = filter (\<lambda>x. Column_ID x = j) (Columns c))"
proof (intro conjI impI)
  assume i: "i \<in> client_task_ids c"
  then have "filter (\<lambda>t. Task_ID t \<notin> client_task_ids c \<and> Task_ID t = i) xs = []"
    for xs :: "Task list"
    by (auto simp: filter_empty_conv)
  then show "filter (\<lambda>t. Task_ID t = i) (Tasks (merge ks s c))
      = map normalize_task (filter (\<lambda>t. Task_ID t = i) (Tasks c))
        @ map clear_column (filter (\<lambda>t. Task_ID t = i) (UnassignedTasks c))"
    by (simp add: engines_closed [OF assms] merged_tasks_def filter_map comp_def)
next
  assume j: "j \<in> Column_ID ` set (Columns c)"
  have "filter (\<lambda>x. Column_ID x = j) (server_rest ks s c) = []"
    unfolding server_rest_def filter_empty_conv
    using j server_rest_entry [of _ _ ks "Columns s"] by force
  then show "filter (\<lambda>x. Column_ID x = j) (Columns (merge ks s c))
      = filter (\<lambda>x. Column_ID x = j) (Columns c)"
    by (simp add: engines_closed [OF assms])
qed

text \<open>
  The amended claim where server and client both hold task \<open>t1\<close> and column \<open>c1\<close> with
  different field values, the client holding \<open>t1\<close> in both of its lists.
\<close>

theorem client_precedence_witness:
  "mergeKanbanData \<in> merge_engines
   \<and> ''t1'' \<in> client_task_ids
        (ex_board [ex_column ''c1'' ''New'' 0 True]
           [ex_task ''t1'' ''new'' (Some ''c2'') False] [ex_task ''t1'' ''dup'' (Some ''c1'') False])
   \<and> ''c1'' \<in> Column_ID ` set (Columns
        (ex_board [ex_column ''c1'' ''New'' 0 True]
           [ex_task ''t1'' ''new'' (Some ''c2'') False] [ex_task ''t1'' ''dup'' (Some ''c1'') False]))
   \<and> filter (\<lambda>t. Task_ID t = ''t1'')
        (Tasks (mergeKanbanData [''c1'']
           (ex_board [ex_column ''c1'' ''Old'' 3 False]
              [ex_task ''t1'' ''old'' (Some ''c1'') True] [])
           (ex_board [ex_column ''c1'' ''New'' 0 True]
              [ex_task ''t1'' ''new'' (Some ''c2'') False]
              [ex_task ''t1'' ''dup'' (Some ''c1'') False])))
     = [ex_task ''t1'' ''new'' (Some ''c2'') False, ex_task ''t1'' ''dup'' None False]
   \<and> filter (\<lambda>x. Column_ID x = ''c1'')
        (Columns (mergeKanbanData [''c1'']
           (ex_board [ex_column ''c1'' ''Old'' 3 False]
              [ex_task ''t1'' ''old'' (Some ''c1'') True] [])
           (ex_board [ex_column ''c1'' ''New'' 0 True]
              [ex_task ''t1'' ''new'' (Some ''c2'') False]
              [ex_task ''t1'' ''dup'' (Some ''c1'') False])))
     = [ex_column ''c1'' ''New'' 0 True]"
proof -
  have h: "mergeKanbanData \<in> merge_engines" by (simp add: merge_engines_def)
  show ?thesis
    using h client_precedence [OF h, of "''t1''"
        "ex_board [ex_column ''c1'' ''New'' 0 True]
           [ex_task ''t1'' ''new'' (Some ''c2'') False] [ex_task ''t1'' ''dup'' (Some ''c1'') False]"
        "[''c1'']"
        "ex_board [ex_column ''c1'' ''Old'' 3 False] [ex_task ''t1'' ''old'' (Some ''c1'') True] []"
        "''c1''"]
    by (simp add: spec_eval ex_task_def ex_column_def ex_board_def)
qed

subsection \<open>Server-only recovery\<close>

text \<open>
  Claim C3, as stated: a task whose id occurs in one of the server's task lists and in
  none of the client's is in the result, unchanged after normalization. A task of the
  server's legacy list that names a column loses its \<^verbatim>\<open>columnId\<close>, which the
  normalization would keep.
\<close>

theorem server_only_recovery_counterexample:
  "ex_task ''t1'' ''a'' (Some ''c1'') False
     \<in> set (UnassignedTasks (ex_board [] [] [ex_task ''t1'' ''a'' (Some ''c1'') False]))
   \<and> ''t1'' \<notin> client_task_ids (ex_board [] [] [])
   \<and> normalize_task (ex_task ''t1'' ''a'' (Some ''c1'') False)
     \<notin> set (Tasks (mergeKanbanData []
            (ex_board [] [] [ex_task ''t1'' ''a'' (Some ''c1'') False]) (ex_board [] [] [])))
   \<and> Tasks (mergeKanbanData []
            (ex_board [] [] [ex_task ''t1'' ''a'' (Some ''c1'') False]) (ex_board [] [] []))
     = [ex_task ''t1'' ''a'' None False]
   \<and> Tasks (main_mergeKanbanData []
            (ex_board [] [] [ex_task ''t1'' ''a'' (Some ''c1'') False]) (ex_board [] [] []))
     = [ex_task ''t1'' ''a'' None False]"
  by (simp add: merge_eval spec_eval)

text \<open>
  Claim C3, amended. For every pair of snapshots, every enumeration order and either
  engine, and every task \<open>t\<close> whose id occurs in none of the client's task lists (main or
  legacy): if \<open>t\<close> is in the server's main task list, the result contains \<open>t\<close> unchanged
  after normalization; if \<open>t\<close> is in the server's legacy list, the result contains \<open>t\<close>
  with its \<^verbatim>\<open>columnId\<close> absent and every other field unchanged.
\<close>

theorem server_only_recovery:
  assumes "merge \<in> merge_engines" and "Task_ID t \<notin> client_task_ids c"
  shows "(t \<in> set (Tasks s) \<longrightarrow> normalize_task t \<in> set (Tasks (merge ks s c)))
       \<and> (t \<in> set (UnassignedTasks s) \<longrightarrow> clear_column t \<in> set (Tasks (merge ks s c)))"
  using assms(2) by (auto simp: engines_closed [OF assms(1)] merged_tasks_def)

text \<open>
  Scenario A of the specification: the server has task \<open>t1\<close> in column \<open>c1\<close>, the client
  pushes a snapshot without \<open>t1\<close>, and the result contains \<open>t1\<close> in column \<open>c1\<close>.
\<close>

theorem server_only_recovery_witness:
  "mergeKanbanData \<in> merge_engines
   \<and> Task_ID (ex_task ''t1'' ''a'' (Some ''c1'') False)
       \<notin> client_task_ids (ex_board [] [ex_task ''t9'' ''z'' None False] [])
   \<and> ex_task ''t1'' ''a'' (Some ''c1'') False
       \<in> set (Tasks (ex_board [] [ex_task ''t1'' ''a'' (Some ''c1'') False] []))
   \<and> ex_task ''t1'' ''a'' (Some ''c1'') False
       \<in> set (Tasks (mergeKanbanData []
            (ex_board [] [ex_task ''t1'' ''a'' (Some ''c1'') False] [])
            (ex_board [] [ex_task ''t9'' ''z'' None False] [])))"
proof -
  have h: "mergeKanbanData \<in> merge_engines" by (simp add: merge_engines_def)
  have a: "Task_ID (ex_task ''t1'' ''a'' (Some ''c1'') False)
       \<notin> client_task_ids (ex_board [] [ex_task ''t9'' ''z'' None False] [])"
    by (simp add: spec_eval ex_task_def ex_board_def)
  show ?thesis
    using h a server_only_recovery [OF h a,
        of "ex_board [] [ex_task ''t1'' ''a'' (Some ''c1'') False] []" "[]"]
    by (simp add: spec_eval ex_task_def ex_board_def)
qed

subsection \<open>Unassigned normalization\<close>

text \<open>
  Claim C4. For every pair of snapshots, every enumeration order and either engine, no
  task of the merged task list has the empty string or the literal \<^verbatim>\<open>"unassigned"\<close> as
  its \<^verbatim>\<open>columnId\<close>: the \<^verbatim>\<open>columnId\<close> is absent or some other, non-empty string.
\<close>

theorem unassigned_normalization:
  assumes "merge \<in> merge_engines"
  shows "\<forall>t \<in> set (Tasks (merge ks s c)).
           ColumnID t \<noteq> Some '''' \<and> ColumnID t \<noteq> Some ''unassigned''"
  using ColumnID_normalize by (auto simp: engines_closed [OF assms] merged_tasks_def)

text \<open>
  A server task with \<^verbatim>\<open>columnId\<close> \<^verbatim>\<open>"unassigned"\<close> and a client task with the empty string:
  both come out without \<^verbatim>\<open>columnId\<close>.
\<close>

theorem unassigned_normalization_witness:
  "mergeKanbanData \<in> merge_engines
   \<and> Tasks (mergeKanbanData []
       (ex_board [] [ex_task ''t1'' ''a'' (Some ''unassigned'') False] [])
       (ex_board [] [ex_task ''t2'' ''b'' (Some '''') False] []))
     = [ex_task ''t2'' ''b'' None False, ex_task ''t1'' ''a'' None False]
   \<and> ColumnID (ex_task ''t2'' ''b'' None False) \<noteq> Some ''''
   \<and> ColumnID (ex_task ''t1'' ''a'' None False) \<noteq> Some ''unassigned''"
proof -
  have h: "mergeKanbanData \<in> merge_engines" by (simp add: merge_engines_def)
  have e: "Tasks (mergeKanbanData []
       (ex_board [] [ex_task ''t1'' ''a'' (Some ''unassigned'') False] [])
       (ex_board [] [ex_task ''t2'' ''b'' (Some '''') False] []))
     = [ex_task ''t2'' ''b'' None False, ex_task ''t1'' ''a'' None False]"
    by (simp add: merge_eval)
  show ?thesis
    using h e unassigned_normalization [OF h, of "[]"
        "ex_board [] [ex_task ''t1'' ''a'' (Some ''unassigned'') False] []"
        "ex_board [] [ex_task ''t2'' ''b'' (Some '''') False] []"]
    by simp
qed

subsection \<open>Tombstones\<close>

text \<open>
  Claim C5, as stated: a task or column with \<^verbatim>\<open>deleted=true\<close> in one input, its id
  present in both, is in the result with \<^verbatim>\<open>deleted=true\<close>; the merge never resurrects a
  tombstone. The client's entry replaces the server's, so a tombstone of the server
  whose id the client still carries undeleted comes back undeleted.
\<close>

theorem tombstone_preservation_counterexample:
  "Task_Deleted (ex_task ''t1'' ''a'' None True)
   \<and> Column_Deleted (ex_column ''c1'' ''A'' 0 True)
   \<and> mergeKanbanData [''c1'']
       (ex_board [ex_column ''c1'' ''A'' 0 True] [ex_task ''t1'' ''a'' None True] [])
       (ex_board [ex_column ''c1'' ''A'' 0 False] [ex_task ''t1'' ''a'' None False] [])
     = ex_board [ex_column ''c1'' ''A'' 0 False] [ex_task ''t1'' ''a'' None False] []
   \<and> main_mergeKanbanData [''c1'']
       (ex_board [ex_column ''c1'' ''A'' 0 True] [ex_task ''t1'' ''a'' None True] [])
       (ex_board [ex_column ''c1'' ''A'' 0 False] [ex_task ''t1'' ''a'' None False] [])
     = ex_board [ex_column ''c1'' ''A'' 0 False] [ex_task ''t1'' ''a'' None False] []
   \<and> \<not> (\<exists>t \<in> set (Tasks (mergeKanbanData [''c1'']
       (ex_board [ex_column ''c1'' ''A'' 0 True] [ex_task ''t1'' ''a'' None True] [])
       (ex_board [ex_column ''c1'' ''A'' 0 False] [ex_task ''t1'' ''a'' None False] []))).
         Task_Deleted t)
   \<and> \<not> (\<exists>col \<in> set (Columns (mergeKanbanData [''c1'']
       (ex_board [ex_column ''c1'' ''A'' 0 True] [ex_task ''t1'' ''a'' None True] [])
       (ex_board [ex_column ''c1'' ''A'' 0 False] [ex_task ''t1'' ''a'' None False] []))).
         Column_Deleted col)"
  by (simp add: merge_eval)

text \<open>
  Claim C5, amended. For every pair of snapshots and either engine, the merged snapshot
  contains, with \<^verbatim>\<open>deleted=true\<close>: every deleted task of the client (\<^verbatim>\<open>columnId\<close> normalized,
  or absent for a legacy task); every deleted task of the server whose id occurs in none
  of the client's task lists (likewise); every deleted column of the client, verbatim;
  and, for an enumeration order of the server-column map, every deleted column of the
  server whose id is not among the client's column ids and which is the last server
  column with its id, verbatim. Where the client carries the id, the client's entry
  decides (claim C2).
\<close>

theorem tombstone_preservation:
  assumes "merge \<in> merge_engines"
  shows "(\<forall>t \<in> set (Tasks c). Task_Deleted t \<longrightarrow>
            normalize_task t \<in> set (Tasks (merge ks s c)) \<and> Task_Deleted (normalize_task t))
       \<and> (\<forall>t \<in> set (UnassignedTasks c). Task_Deleted t \<longrightarrow>
            clear_column t \<in> set (Tasks (merge ks s c)) \<and> Task_Deleted (clear_column t))
       \<and> (\<forall>t \<in> set (Tasks s). Task_Deleted t \<and> Task_ID t \<notin> client_task_ids c \<longrightarrow>
            normalize_task t \<in> set (Tasks (merge ks s c)) \<and> Task_Deleted (normalize_task t))
       \<and> (\<forall>t \<in> set (UnassignedTasks s). Task_Deleted t \<and> Task_ID t \<notin> client_task_ids c \<longrightarrow>
            clear_column t \<in> set (Tasks (merge ks s c)) \<and> Task_Deleted (clear_column t))
       \<and> (\<forall>col \<in> set (Columns c). Column_Deleted col \<longrightarrow> col \<in> set (Columns (merge ks s c)))
       \<and> (map_order ks (populate_columns (Columns s) Map.empty) \<longrightarrow>
            (\<forall>col \<in> set (Columns s).
               Column_Deleted col \<and> Column_ID col \<notin> Column_ID ` set (Columns c)
               \<and> List.find (\<lambda>x. Column_ID x = Column_ID col) (rev (Columns s)) = Some col
               \<longrightarrow> col \<in> set (Columns (merge ks s c))))"
proof -
  have tasks: "Tasks (merge ks s c) = merged_tasks s c"
    and cols: "Columns (merge ks s c) = Columns c @ server_rest ks s c"
    by (simp_all add: engines_closed [OF assms])
  have "col \<in> set (server_rest ks s c)"
    if "map_order ks (populate_columns (Columns s) Map.empty)"
      and "Column_ID col \<notin> Column_ID ` set (Columns c)"
      and "List.find (\<lambda>x. Column_ID x = Column_ID col) (rev (Columns s)) = Some col" for col
    using that server_rest_set [of ks s c] by (simp add: map_order_def)
  then show ?thesis
    unfolding tasks cols by (auto simp: merged_tasks_def)
qed

text \<open>
  A deleted column and a deleted task on each side, with different ids: all four are in
  the result, deleted.
\<close>

theorem tombstone_preservation_witness:
  "mergeKanbanData \<in> merge_engines
   \<and> map_order [''c2''] (populate_columns [ex_column ''c2'' ''B'' 1 True] Map.empty)
   \<and> mergeKanbanData [''c2'']
       (ex_board [ex_column ''c2'' ''B'' 1 True] [ex_task ''t2'' ''b'' (Some ''c2'') True] [])
       (ex_board [ex_column ''c1'' ''A'' 0 True] [ex_task ''t1'' ''a'' (Some ''c1'') True] [])
     = ex_board [ex_column ''c1'' ''A'' 0 True, ex_column ''c2'' ''B'' 1 True]
         [ex_task ''t1'' ''a'' (Some ''c1'') True, ex_task ''t2'' ''b'' (Some ''c2'') True] []
   \<and> normalize_task (ex_task ''t1'' ''a'' (Some ''c1'') True)
       \<in> set (Tasks (mergeKanbanData [''c2'']
       (ex_board [ex_column ''c2'' ''B'' 1 True] [ex_task ''t2'' ''b'' (Some ''c2'') True] [])
       (ex_board [ex_column ''c1'' ''A'' 0 True] [ex_task ''t1'' ''a'' (Some ''c1'') True] [])))
   \<and> normalize_task (ex_task ''t2'' ''b'' (Some ''c2'') True)
       \<in> set (Tasks (mergeKanbanData [''c2'']
       (ex_board [ex_column ''c2'' ''B'' 1 True] [ex_task ''t2'' ''b'' (Some ''c2'') True] [])
       (ex_board [ex_column ''c1'' ''A'' 0 True] [ex_task ''t1'' ''a'' (Some ''c1'') True] [])))"
proof -
  have h: "mergeKanbanData \<in> merge_engines" by (simp add: merge_engines_def)
  have e: "mergeKanbanData [''c2'']
       (ex_board [ex_column ''c2'' ''B'' 1 True] [ex_task ''t2'' ''b'' (Some ''c2'') True] [])
       (ex_board [ex_column ''c1'' ''A'' 0 True] [ex_task ''t1'' ''a'' (Some ''c1'') True] [])
     = ex_board [ex_column ''c1'' ''A'' 0 True, ex_column ''c2'' ''B'' 1 True]
         [ex_task ''t1'' ''a'' (Some ''c1'') True, ex_task ''t2'' ''b'' (Some ''c2'') True] []"
    by (simp add: merge_eval)
  have m: "map_order [''c2''] (populate_columns [ex_column ''c2'' ''B'' 1 True] Map.empty)"
    by (simp add: map_order_def populate_columns_def ex_column_def)
  show ?thesis
    using h m tombstone_preservation [OF h, of
        "ex_board [ex_column ''c1'' ''A'' 0 True] [ex_task ''t1'' ''a'' (Some ''c1'') True] []"
        "[''c2'']"
        "ex_board [ex_column ''c2'' ''B'' 1 True] [ex_task ''t2'' ''b'' (Some ''c2'') True] []"]
    unfolding e
    by (simp add: spec_eval ex_task_def ex_column_def ex_board_def)
qed

subsection \<open>Column reconciliation\<close>

text \<open>
  Claim C6, as stated: after the client's columns comes every server column whose id is
  not among the client's, also when several server columns share an id. The server's
  columns pass through a map keyed by id, which keeps one column for each id: of two
  server columns with id \<open>c1\<close> only the second is in the result.
\<close>

theorem column_reconciliation_counterexample:
  "map_order [''c1'']
     (populate_columns [ex_column ''c1'' ''A'' 0 False, ex_column ''c1'' ''B'' 1 False] Map.empty)
   \<and> ex_column ''c1'' ''A'' 0 False
       \<in> set (Columns (ex_board [ex_column ''c1'' ''A'' 0 False, ex_column ''c1'' ''B'' 1 False] [] []))
   \<and> Column_ID (ex_column ''c1'' ''A'' 0 False) \<notin> Column_ID ` set (Columns (ex_board [] [] []))
   \<and> ex_column ''c1'' ''A'' 0 False
       \<notin> set (Columns (mergeKanbanData [''c1'']
            (ex_board [ex_column ''c1'' ''A'' 0 False, ex_column ''c1'' ''B'' 1 False] [] [])
            (ex_board [] [] [])))
   \<and> Columns (mergeKanbanData [''c1'']
            (ex_board [ex_column ''c1'' ''A'' 0 False, ex_column ''c1'' ''B'' 1 False] [] [])
            (ex_board [] [] []))
     = [ex_column ''c1'' ''B'' 1 False]
   \<and> Columns (main_mergeKanbanData [''c1'']
            (ex_board [ex_column ''c1'' ''A'' 0 False, ex_column ''c1'' ''B'' 1 False] [] [])
            (ex_board [] [] []))
     = [ex_column ''c1'' ''B'' 1 False]"
  by (simp add: merge_eval map_order_def)

text \<open>
  Claim C6, amended. For every pair of snapshots, either engine and every enumeration
  order of the server-column map: the merged column list is the client's column list,
  verbatim and in the client's order, followed by a list \<open>rest\<close> that holds no id twice
  and consists of the server columns whose id is not among the client's column ids and
  which are the last server column with their id. When no two server columns share an
  id, \<open>rest\<close> consists of every server column whose id is not among the client's.
  The order of \<open>rest\<close> is the enumeration order of the map.
\<close>

theorem column_reconciliation:
  assumes "merge \<in> merge_engines"
    and "map_order ks (populate_columns (Columns s) Map.empty)"
  shows "\<exists>rest. Columns (merge ks s c) = Columns c @ rest
           \<and> distinct (map Column_ID rest)
           \<and> set rest = {col. Column_ID col \<notin> Column_ID ` set (Columns c)
                    \<and> List.find (\<lambda>x. Column_ID x = Column_ID col) (rev (Columns s)) = Some col}
           \<and> (distinct (map Column_ID (Columns s)) \<longrightarrow>
                set rest = {col \<in> set (Columns s). Column_ID col \<notin> Column_ID ` set (Columns c)})"
proof -
  let ?rest = "server_rest ks s c"
  from assms(2) have d: "distinct ks" and k: "set ks = dom (populate_columns (Columns s) Map.empty)"
    by (simp_all add: map_order_def)
  have 1: "Columns (merge ks s c) = Columns c @ ?rest"
    by (simp add: engines_closed [OF assms(1)])
  have 2: "distinct (map Column_ID ?rest)" by (rule server_rest_distinct [OF d])
  note 3 = server_rest_set [OF k, of c]
  have 4: "set ?rest = {col \<in> set (Columns s). Column_ID col \<notin> Column_ID ` set (Columns c)}"
    if u: "distinct (map Column_ID (Columns s))"
  proof -
    have "List.find (\<lambda>x. Column_ID x = Column_ID col) (rev (Columns s)) = Some col
            \<longleftrightarrow> col \<in> set (Columns s)" for col
      using find_distinct_key [of Column_ID "rev (Columns s)" col]
        find_key_member [of Column_ID "Column_ID col" "rev (Columns s)" col] u
      by (auto simp: rev_map [symmetric])
    then show ?thesis unfolding 3 by auto
  qed
  from 1 2 3 4 show ?thesis by blast
qed

text \<open>
  Three server columns, the client carrying one of their ids: the client's column comes
  first and the two others follow in the enumeration order.
\<close>

theorem column_reconciliation_witness:
  "mergeKanbanData \<in> merge_engines
   \<and> map_order [''c3'', ''c1'', ''c2'']
       (populate_columns (Columns (ex_board
          [ex_column ''c1'' ''A'' 0 False, ex_column ''c2'' ''B'' 1 False,
           ex_column ''c3'' ''C'' 2 True] [] [])) Map.empty)
   \<and> (\<exists>rest. Columns (mergeKanbanData [''c3'', ''c1'', ''c2'']
         (ex_board [ex_column ''c1'' ''A'' 0 False, ex_column ''c2'' ''B'' 1 False,
                    ex_column ''c3'' ''C'' 2 True] [] [])
         (ex_board [ex_column ''c2'' ''B2'' 0 False] [] []))
       = [ex_column ''c2'' ''B2'' 0 False] @ rest
       \<and> set rest = {ex_column ''c1'' ''A'' 0 False, ex_column ''c3'' ''C'' 2 True})
   \<and> Columns (mergeKanbanData [''c3'', ''c1'', ''c2'']
         (ex_board [ex_column ''c1'' ''A'' 0 False, ex_column ''c2'' ''B'' 1 False,
                    ex_column ''c3'' ''C'' 2 True] [] [])
         (ex_board [ex_column ''c2'' ''B2'' 0 False] [] []))
     = [ex_column ''c2'' ''B2'' 0 False, ex_column ''c3'' ''C'' 2 True,
        ex_column ''c1'' ''A'' 0 False]"
proof -
  have h: "mergeKanbanData \<in> merge_engines" by (simp add: merge_engines_def)
  have m: "map_order [''c3'', ''c1'', ''c2'']
       (populate_columns (Columns (ex_board
          [ex_column ''c1'' ''A'' 0 False, ex_column ''c2'' ''B'' 1 False,
           ex_column ''c3'' ''C'' 2 True] [] [])) Map.empty)"
    by (auto simp: map_order_def populate_columns_def ex_column_def ex_board_def)
  have e: "Columns (mergeKanbanData [''c3'', ''c1'', ''c2'']
         (ex_board [ex_column ''c1'' ''A'' 0 False, ex_column ''c2'' ''B'' 1 False,
                    ex_column ''c3'' ''C'' 2 True] [] [])
         (ex_board [ex_column ''c2'' ''B2'' 0 False] [] []))
     = [ex_column ''c2'' ''B2'' 0 False, ex_column ''c3'' ''C'' 2 True,
        ex_column ''c1'' ''A'' 0 False]"
    by (simp add: merge_eval)
  have d: "distinct (map Column_ID (Columns (ex_board
          [ex_column ''c1'' ''A'' 0 False, ex_column ''c2'' ''B'' 1 False,
           ex_column ''c3'' ''C'' 2 True] [] [])))"
    by (simp add: ex_column_def ex_board_def)
  from column_reconciliation [OF h m, of "ex_board [ex_column ''c2'' ''B2'' 0 False] [] []"] d
  obtain rest where r: "Columns (mergeKanbanData [''c3'', ''c1'', ''c2'']
         (ex_board [ex_column ''c1'' ''A'' 0 False, ex_column ''c2'' ''B'' 1 False,
                    ex_column ''c3'' ''C'' 2 True] [] [])
         (ex_board [ex_column ''c2'' ''B2'' 0 False] [] []))
       = Columns (ex_board [ex_column ''c2'' ''B2'' 0 False] [] []) @ rest"
    and s: "set rest = {col \<in> set (Columns (ex_board
          [ex_column ''c1'' ''A'' 0 False, ex_column ''c2'' ''B'' 1 False,
           ex_column ''c3'' ''C'' 2 True] [] [])).
             Column_ID col \<notin> Column_ID ` set (Columns (ex_board [ex_column ''c2'' ''B2'' 0 False] [] []))}"
    by blast
  have "set rest = {ex_column ''c1'' ''A'' 0 False, ex_column ''c3'' ''C'' 2 True}"
    unfolding s by (auto simp: ex_column_def ex_board_def)
  with r h m e show ?thesis by (auto simp: ex_board_def)
qed

subsection \<open>The two engines\<close>

text \<open>
  Claim C10. The merge engine of package \<^verbatim>\<open>main\<close> (\<^verbatim>\<open>handlers.go\<close>) and the one of package
  \<^verbatim>\<open>handlers\<close> (\<^verbatim>\<open>handlers/data.go\<close>) return equal snapshots for every pair of input
  snapshots and the same enumeration order of the server-column map.
\<close>

theorem engines_agree: "main_mergeKanbanData ks s c = mergeKanbanData ks s c"
  by (simp add: mergeKanbanData_closed main_mergeKanbanData_closed)

text \<open>Both engines on one pair of snapshots with legacy lists on both sides.\<close>

theorem engines_agree_witness:
  "main_mergeKanbanData [''c1'']
     (ex_board [ex_column ''c1'' ''A'' 0 False] [ex_task ''t1'' ''a'' (Some ''c1'') False]
        [ex_task ''t3'' ''c'' (Some ''c1'') False])
     (ex_board [] [ex_task ''t2'' ''b'' (Some '''') False] [ex_task ''t4'' ''d'' (Some ''c1'') True])
   = mergeKanbanData [''c1'']
     (ex_board [ex_column ''c1'' ''A'' 0 False] [ex_task ''t1'' ''a'' (Some ''c1'') False]
        [ex_task ''t3'' ''c'' (Some ''c1'') False])
     (ex_board [] [ex_task ''t2'' ''b'' (Some '''') False] [ex_task ''t4'' ''d'' (Some ''c1'') True])
   \<and> mergeKanbanData [''c1'']
     (ex_board [ex_column ''c1'' ''A'' 0 False] [ex_task ''t1'' ''a'' (Some ''c1'') False]
        [ex_task ''t3'' ''c'' (Some ''c1'') False])
     (ex_board [] [ex_task ''t2'' ''b'' (Some '''') False] [ex_task ''t4'' ''d'' (Some ''c1'') True])
   = ex_board [ex_column ''c1'' ''A'' 0 False]
       [ex_task ''t2'' ''b'' None False, ex_task ''t4'' ''d'' None True,
        ex_task ''t1'' ''a'' (Some ''c1'') False, ex_task ''t3'' ''c'' None False] []"
proof -
  have e: "mergeKanbanData [''c1'']
     (ex_board [ex_column ''c1'' ''A'' 0 False] [ex_task ''t1'' ''a'' (Some ''c1'') False]
        [ex_task ''t3'' ''c'' (Some ''c1'') False])
     (ex_board [] [ex_task ''t2'' ''b'' (Some '''') False] [ex_task ''t4'' ''d'' (Some ''c1'') True])
   = ex_board [ex_column ''c1'' ''A'' 0 False]
       [ex_task ''t2'' ''b'' None False, ex_task ''t4'' ''d'' None True,
        ex_task ''t1'' ''a'' (Some ''c1'') False, ex_task ''t3'' ''c'' None False] []"
    by (simp add: merge_eval)
  show ?thesis
    using e engines_agree [of "[''c1'']"
     "ex_board [ex_column ''c1'' ''A'' 0 False] [ex_task ''t1'' ''a'' (Some ''c1'') False]
        [ex_task ''t3'' ''c'' (Some ''c1'') False]"
     "ex_board [] [ex_task ''t2'' ''b'' (Some '''') False] [ex_task ''t4'' ''d'' (Some ''c1'') True]"]
    by simp
qed

section \<open>Properties of the connection hub\<close>

subsection \<open>The broadcast loop in closed form\<close>

lemma deliver_open:
  assumes "store h a = Some c" and "\<not> chan_closed (Send c)"
  shows "deliver w e a h =
     Inr (h\<lparr>store := (store h)(a \<mapsto> delivered w e c),
            Clients := (if dropped e c then (Clients h)(a := None) else Clients h)\<rparr>)"
  using assms
  by (auto simp: deliver_def try_send_def close_chan_def delivered_def dropped_def
      excluded_def queue_full_def enqueued_def queue_closed_def fun_upd_idem)

lemma after_broadcast_empty: "after_broadcast w e {} h = h"
  by (simp add: after_broadcast_def)

lemma after_broadcast_skip:
  assumes "\<not> live h a"
  shows "after_broadcast w e (insert a S) h = after_broadcast w e S h"
  using assms by (intro Hub.equality) (auto simp: after_broadcast_def fun_eq_iff)

lemma after_broadcast_step:
  assumes "store h a = Some c" and "live h a" and "a \<notin> S"
  shows "after_broadcast w e S
           (h\<lparr>store := (store h)(a \<mapsto> delivered w e c),
              Clients := (if dropped e c then (Clients h)(a := None) else Clients h)\<rparr>)
         = after_broadcast w e (insert a S) h"
  using assms by (intro Hub.equality) (auto simp: after_broadcast_def fun_eq_iff live_def)

lemma broadcast_loop_closed:
  assumes "distinct ks"
    and "\<forall>a \<in> set ks. live h a \<longrightarrow> (\<exists>c. store h a = Some c \<and> \<not> chan_closed (Send c))"
  shows "broadcast_loop w e ks h = Inr (after_broadcast w e (set ks) h)"
  using assms
proof (induction ks arbitrary: h)
  case Nil
  then show ?case by (simp add: after_broadcast_empty)
next
  case (Cons a ks)
  show ?case
  proof (cases "live h a")
    case False
    then show ?thesis
      using Cons by (simp add: after_broadcast_skip live_def)
  next
    case True
    with Cons.prems obtain c where c: "store h a = Some c" "\<not> chan_closed (Send c)"
      by auto
    let ?h1 = "h\<lparr>store := (store h)(a \<mapsto> delivered w e c),
                  Clients := (if dropped e c then (Clients h)(a := None) else Clients h)\<rparr>"
    have d: "deliver w e a h = Inr ?h1" by (rule deliver_open [OF c])
    have "\<forall>b \<in> set ks. live ?h1 b \<longrightarrow> (\<exists>c. store ?h1 b = Some c \<and> \<not> chan_closed (Send c))"
      using Cons.prems by (auto simp: live_def)
    then have "broadcast_loop w e ks ?h1 = Inr (after_broadcast w e (set ks) ?h1)"
      using Cons.IH [of ?h1] Cons.prems by simp
    also have "after_broadcast w e (set ks) ?h1 = after_broadcast w e (insert a (set ks)) h"
      using after_broadcast_step [OF c(1) True, of "set ks" w e] Cons.prems by simp
    finally have "broadcast_loop w e ks ?h1 = Inr (after_broadcast w e (insert a (set ks)) h)" .
    moreover have "broadcast_loop w e (a # ks) h = broadcast_loop w e ks ?h1"
      using True d by (auto simp: live_def)
    ultimately show ?thesis by simp
  qed
qed

lemma Run_step_broadcast:
  assumes "hub_inv h" and "map_order ks (Clients h)" and "Decode w = Some m"
  shows "Run_step ks (BroadcastEv w) h = Inr (after_broadcast w (User m) {a. live h a} h)"
proof -
  from assms(2) have d: "distinct ks" and s: "set ks = {a. live h a}"
    by (auto simp: map_order_def live_def)
  have "broadcast_loop w (User m) ks h = Inr (after_broadcast w (User m) (set ks) h)"
    using assms(1) by (intro broadcast_loop_closed [OF d]) (simp add: hub_inv_def)
  then show ?thesis using assms(3) s by (simp add: Run_step_def)
qed

subsection \<open>The hub's invariant\<close>

text \<open>
  A new hub satisfies \<open>hub_inv\<close>, and an iteration of \<^verbatim>\<open>Run\<close> keeps it and does not
  panic, provided that a client handed to \<^verbatim>\<open>Register\<close> is a client of the store whose
  queue is open (\<^verbatim>\<open>HandleWebSocket\<close> registers a client it has just made, with a queue it
  has just made), and that the order of a broadcast's loop is an order of the live set.
  The pumps, which run between the hub's iterations, take from the queues and put
  replies into them, and close none.
\<close>

lemma hub_inv_NewHub: "hub_inv NewHub"
  by (simp add: hub_inv_def NewHub_def live_def)

lemma delivered_open:
  "\<not> chan_closed (Send c) \<Longrightarrow> \<not> dropped e c \<Longrightarrow> \<not> chan_closed (Send (delivered w e c))"
  by (auto simp: delivered_def dropped_def enqueued_def)

lemma hub_inv_after_broadcast:
  assumes "hub_inv h"
  shows "hub_inv (after_broadcast w e S h)"
  unfolding hub_inv_def
proof (intro allI impI)
  fix a
  assume l: "live (after_broadcast w e S h) a"
  then have la: "live h a"
    by (auto simp: live_def after_broadcast_def split: if_splits)
  with assms obtain c where c: "store h a = Some c" "\<not> chan_closed (Send c)"
    by (auto simp: hub_inv_def)
  show "\<exists>c. store (after_broadcast w e S h) a = Some c \<and> \<not> chan_closed (Send c)"
  proof (cases "a \<in> S")
    case True
    with l c la have "\<not> dropped e c"
      by (auto simp: live_def after_broadcast_def split: if_splits)
    then show ?thesis
      using True la c delivered_open [of c e w] by (simp add: after_broadcast_def)
  next
    case False
    then show ?thesis using c by (simp add: after_broadcast_def)
  qed
qed

lemma Run_step_safe:
  assumes "hub_inv h"
    and "case ev of
           RegisterEv a \<Rightarrow> (\<exists>c. store h a = Some c \<and> \<not> chan_closed (Send c))
         | UnregisterEv a \<Rightarrow> True
         | BroadcastEv w \<Rightarrow> map_order ks (Clients h)"
  shows "\<exists>h'. Run_step ks ev h = Inr h' \<and> hub_inv h'"
proof (cases ev)
  case (RegisterEv a)
  with assms show ?thesis
    by (auto simp: Run_step_def hub_inv_def live_def)
next
  case (UnregisterEv a)
  show ?thesis
  proof (cases "live h a")
    case True
    with assms(1) obtain c where "store h a = Some c" "\<not> chan_closed (Send c)"
      by (auto simp: hub_inv_def)
    with True assms(1) UnregisterEv show ?thesis
      by (auto simp: Run_step_def hub_inv_def live_def close_chan_def)
  next
    case False
    with assms(1) UnregisterEv show ?thesis
      by (simp add: Run_step_def live_def)
  qed
next
  case (BroadcastEv w)
  show ?thesis
  proof (cases "Decode w")
    case None
    with assms(1) BroadcastEv show ?thesis by (simp add: Run_step_def)
  next
    case (Some m)
    with assms BroadcastEv show ?thesis
      by (simp add: Run_step_broadcast hub_inv_after_broadcast)
  qed
qed

text \<open>Facts for evaluating the hub on concrete states.\<close>

lemmas hub_eval =
  ex_hub_def ex_client_def ex_msg_def hub_inv_def live_def map_order_def queue_full_def
  enqueued_def queue_closed_def excluded_def

subsection \<open>Who receives a broadcast\<close>




subsection \<open>A full queue\<close>

text \<open>
  Claim C8. For every hub state that satisfies the hub's invariant, every enumeration
  order of the live set and every broadcast whose bytes decode, with \<open>e\<close> the \<^verbatim>\<open>User\<close>
  of the decoded message: the iteration returns a hub state (it does not panic, and no
  send waits), the invariant still holds, and of the live sessions that are not excluded
  by \<open>e\<close>, each one whose queue is full has its queue closed, with what was queued left
  in it, and is removed from the live set, while each other one has the message
  appended to its queue and stays live. Excluded sessions and sessions that were not
  live are untouched.
\<close>

theorem full_queue_dropped:
  assumes "hub_inv h" and "map_order ks (Clients h)" and "Decode w = Some m"
  shows "\<exists>h'. Run_step ks (BroadcastEv w) h = Inr h' \<and> hub_inv h'
           \<and> (\<forall>a c. live h a \<and> store h a = Some c \<longrightarrow>
                 (\<not> excluded (User m) c \<and> queue_full c \<longrightarrow>
                    store h' a = Some (queue_closed c) \<and> \<not> live h' a)
               \<and> (\<not> excluded (User m) c \<and> \<not> queue_full c \<longrightarrow>
                    store h' a = Some (enqueued w c) \<and> live h' a)
               \<and> (excluded (User m) c \<longrightarrow> store h' a = Some c \<and> live h' a))
           \<and> (\<forall>a. \<not> live h a \<longrightarrow> store h' a = store h a \<and> \<not> live h' a)"
proof -
  let ?h' = "after_broadcast w (User m) {a. live h a} h"
  have r: "Run_step ks (BroadcastEv w) h = Inr ?h'"
    by (rule Run_step_broadcast [OF assms])
  have i: "hub_inv ?h'" by (rule hub_inv_after_broadcast [OF assms(1)])
  have 1: "(\<not> excluded (User m) c \<and> queue_full c \<longrightarrow>
                    store ?h' a = Some (queue_closed c) \<and> \<not> live ?h' a)
               \<and> (\<not> excluded (User m) c \<and> \<not> queue_full c \<longrightarrow>
                    store ?h' a = Some (enqueued w c) \<and> live ?h' a)
               \<and> (excluded (User m) c \<longrightarrow> store ?h' a = Some c \<and> live ?h' a)"
    if "live h a \<and> store h a = Some c" for a c
    using that by (auto simp: after_broadcast_def delivered_def dropped_def live_def)
  have 2: "store ?h' a = store h a \<and> \<not> live ?h' a" if "\<not> live h a" for a
    using that by (auto simp: after_broadcast_def live_def)
  from r i 1 2 show ?thesis by blast
qed

text \<open>
  Scenario D of the specification, with queues of capacity 2: the queue of A is full,
  and after the broadcast A is closed and no longer live, while B and C have received
  the message.
\<close>

theorem full_queue_dropped_witness:
  "hub_inv (ex_hub (ex_client ''a@x'' [Malformed ''p'', Malformed ''q''] 2)
              (ex_client ''b@x'' [Malformed ''p''] 2) (ex_client ''c@x'' [] 2) :: string Hub)
   \<and> map_order [1, 0, 2]
       (Clients (ex_hub (ex_client ''a@x'' [Malformed ''p'', Malformed ''q''] 2)
              (ex_client ''b@x'' [Malformed ''p''] 2) (ex_client ''c@x'' [] 2 :: string Client)))
   \<and> queue_full (ex_client ''a@x'' [Malformed ''p'', Malformed ''q''] 2 :: string Client)
   \<and> (\<exists>h'. Run_step [1, 0, 2] (BroadcastEv (Encoded ex_msg))
              (ex_hub (ex_client ''a@x'' [Malformed ''p'', Malformed ''q''] 2)
                 (ex_client ''b@x'' [Malformed ''p''] 2) (ex_client ''c@x'' [] 2)) = Inr h'
          \<and> hub_inv h'
          \<and> store h' 0 = Some (queue_closed (ex_client ''a@x'' [Malformed ''p'', Malformed ''q''] 2))
          \<and> \<not> live h' 0
          \<and> store h' 1 = Some (ex_client ''b@x'' [Malformed ''p'', Encoded ex_msg] 2) \<and> live h' 1
          \<and> store h' 2 = Some (ex_client ''c@x'' [Encoded ex_msg] 2) \<and> live h' 2)"
proof -
  let ?A = "ex_client ''a@x'' [Malformed ''p'', Malformed ''q''] 2 :: string Client"
  let ?B = "ex_client ''b@x'' [Malformed ''p''] 2 :: string Client"
  let ?C = "ex_client ''c@x'' [] 2 :: string Client"
  let ?H = "ex_hub ?A ?B ?C"
  have i: "hub_inv ?H" by (auto simp: hub_eval)
  have o: "map_order [1, 0, 2] (Clients ?H)" by (auto simp: hub_eval)
  have w: "Decode (Encoded ex_msg) = Some ex_msg" by simp
  have s: "live ?H 0 \<and> store ?H 0 = Some ?A" "live ?H 1 \<and> store ?H 1 = Some ?B"
    "live ?H 2 \<and> store ?H 2 = Some ?C"
    by (simp_all add: ex_hub_def live_def)
  have q: "queue_full ?A" "\<not> queue_full ?B" "\<not> queue_full ?C"
    "\<not> excluded (User ex_msg) ?A"
    "\<not> excluded (User ex_msg) ?B"
    "\<not> excluded (User ex_msg) ?C"
    by (simp_all add: queue_full_def ex_client_def excluded_def ex_msg_def)
  from full_queue_dropped [OF i o w]
  obtain h' where r: "Run_step [1, 0, 2] (BroadcastEv (Encoded ex_msg)) ?H = Inr h'"
    and i': "hub_inv h'"
    and d: "\<forall>a c. live ?H a \<and> store ?H a = Some c \<longrightarrow>
                 (\<not> excluded (User ex_msg) c \<and> queue_full c \<longrightarrow>
                    store h' a = Some (queue_closed c) \<and> \<not> live h' a)
               \<and> (\<not> excluded (User ex_msg) c \<and> \<not> queue_full c \<longrightarrow>
                    store h' a = Some (enqueued (Encoded ex_msg) c) \<and> live h' a)
               \<and> (excluded (User ex_msg) c \<longrightarrow> store h' a = Some c \<and> live h' a)"
    by blast
  have "store h' 0 = Some (queue_closed ?A) \<and> \<not> live h' 0"
    using d s(1) q by blast
  moreover have "store h' 1 = Some (ex_client ''b@x'' [Malformed ''p'', Encoded ex_msg] 2) \<and> live h' 1"
    using d [rule_format, OF s(2)] q by (simp add: enqueued_def ex_client_def ex_msg_def)
  moreover have "store h' 2 = Some (ex_client ''c@x'' [Encoded ex_msg] 2) \<and> live h' 2"
    using d [rule_format, OF s(3)] q by (simp add: enqueued_def ex_client_def ex_msg_def)
  ultimately show ?thesis using i o q(1) r i' by auto
qed

section \<open>Properties of the sync endpoint\<close>

text \<open>
  Claim C9. For both handlers and every request: if the email is known, the body
  decodes, the stored snapshot is read and the save of the merged snapshot returns an
  error, then the handler answers with status 500 (\<^verbatim>\<open>"Failed to save data"\<close>), hands
  nothing to the hub and leaves the database as it was. Conversely, whenever a handler
  hands something to the hub or answers with success, the save of the merged snapshot
  has succeeded, the database is the one the save returned, the answer is success with
  that snapshot and exactly one \<^verbatim>\<open>"sync"\<close> message with that snapshot has been handed to
  the hub (one call of \<^verbatim>\<open>h.hub.Broadcast\<close>), with no identity excluded.
\<close>

theorem save_failure_not_broadcast:
  "(ctx_email r = Some email \<and> body r = Some clientData
      \<and> GetUserData svc db email = Inr serverData
      \<and> SaveUserData svc db email (mergeKanbanData ks serverData clientData) = Inl err
    \<longrightarrow> SyncData svc ks r db
          = (HttpError StatusInternalServerError ''Failed to save data'', db, []))
   \<and> (authenticate r = Inr email \<and> body r = Some clientData
      \<and> GetUserData svc db email = Inr serverData
      \<and> SaveUserData svc db email (main_mergeKanbanData ks serverData clientData) = Inl err
    \<longrightarrow> main_SyncData svc ks r db
          = (HttpError StatusInternalServerError ''Failed to save data'', db, []))
   \<and> (\<forall>resp db' sent.
        (SyncData svc ks r db = (resp, db', sent) \<or> main_SyncData svc ks r db = (resp, db', sent))
        \<and> (sent \<noteq> [] \<or> (\<exists>d. resp = Success d))
      \<longrightarrow> (\<exists>email merged.
             SaveUserData svc db email merged = Inr db' \<and> resp = Success merged
             \<and> sent = [(\<lparr>Type = ''sync'', Data = merged, User = ''''\<rparr>, '''')]))
   \<and> StatusInternalServerError = 500"
  by (auto simp: SyncData_def main_SyncData_def Let_def StatusInternalServerError_def
      split: option.splits sum.splits)

text \<open>
  A first sync of a user whose board holds one task, against a storage service whose
  save fails, and against one whose save succeeds.
\<close>

theorem save_failure_not_broadcast_witness:
  "SaveUserData (ex_service True) Map.empty ''a@x''
       (mergeKanbanData [] \<lparr>Columns = [], Tasks = [], UnassignedTasks = [], UnassignedCollapsed = True\<rparr>
          (ex_board [] [ex_task ''t1'' ''a'' None False] []))
     = Inl ''failed to commit transaction''
   \<and> SyncData (ex_service True) [] (ex_request ''a@x'' (ex_board [] [ex_task ''t1'' ''a'' None False] []))
       Map.empty
     = (HttpError 500 ''Failed to save data'', Map.empty, [])
   \<and> main_SyncData (ex_service True) [] (ex_request ''a@x'' (ex_board [] [ex_task ''t1'' ''a'' None False] []))
       Map.empty
     = (HttpError 500 ''Failed to save data'', Map.empty, [])
   \<and> SyncData (ex_service False) [] (ex_request ''a@x'' (ex_board [] [ex_task ''t1'' ''a'' None False] []))
       Map.empty
     = (Success (ex_board [] [ex_task ''t1'' ''a'' None False] []),
        [''a@x'' \<mapsto> ex_board [] [ex_task ''t1'' ''a'' None False] []],
        [(\<lparr>Type = ''sync'', Data = ex_board [] [ex_task ''t1'' ''a'' None False] [],
           User = ''''\<rparr>, '''')])"
proof -
  let ?c = "ex_board [] [ex_task ''t1'' ''a'' None False] []"
  let ?s = "\<lparr>Columns = [], Tasks = [], UnassignedTasks = [], UnassignedCollapsed = True\<rparr>"
  let ?r = "ex_request ''a@x'' ?c"
  have p: "ctx_email ?r = Some ''a@x''" "authenticate ?r = Inr ''a@x''" "body ?r = Some ?c"
    "GetUserData (ex_service True) Map.empty ''a@x'' = Inr ?s"
    "\<And>d. SaveUserData (ex_service True) Map.empty ''a@x'' d = Inl ''failed to commit transaction''"
    by (simp_all add: ex_request_def ex_service_def)
  have ok: "SyncData (ex_service False) [] ?r Map.empty
     = (Success ?c, [''a@x'' \<mapsto> ?c],
        [(\<lparr>Type = ''sync'', Data = ?c, User = ''''\<rparr>, '''')])"
    by (simp add: SyncData_def ex_service_def ex_request_def merge_eval)
  show ?thesis
    using p ok save_failure_not_broadcast [of ?r "''a@x''" ?c "ex_service True" Map.empty ?s "[]"
        "''failed to commit transaction''"]
    by simp
qed

end
